theory Spec2Isabelle
  imports Complex_Main "HOL-Library.Sublist" "HOL-Library.AList"
begin

section \<open>Strings and character classes\<close>

text \<open>
  A Python \<open>str\<close> is a sequence of code points. The embedding works with Isabelle
  strings, whose characters stand for the code points below 256; on this range
  \<open>str.lower\<close> maps one character to one character, so it keeps the length
  of a string. \<open>ord\<close> reads the code point of a character.

  Beyond this range \<open>str.lower\<close> can lengthen a string: it turns U+0130 into the two
  code points U+0069 and U+0307. The matcher searches the lower-cased text and cuts the
  original text at the offsets it finds there, so on such a text the offsets no longer
  fit, and the combining mark U+0307, which is no word character, opens a word boundary
  inside a word. These texts are outside the embedding; what is proved below about the
  matcher is about texts of code points below 256.
\<close>

definition ord :: "char \<Rightarrow> nat" where
  "ord c = of_char c"

definition newline :: char where
  "newline = CHR 0x0A"

text \<open>
  \<open>str.lower\<close> on one character: the upper-case letters \<open>A\<close> to \<open>Z\<close> and the
  upper-case letters of the range 0xC0 to 0xDE (the multiplication sign 0xD7 is no
  letter) move up by 32; every other character stays.
\<close>

definition char_lower :: "char \<Rightarrow> char" where
  "char_lower c =
     (if (65 \<le> ord c \<and> ord c \<le> 90) \<or> (192 \<le> ord c \<and> ord c \<le> 222 \<and> ord c \<noteq> 215)
      then char_of (ord c + 32) else c)"

definition lower :: "string \<Rightarrow> string" where
  "lower s = map char_lower s"

text \<open>
  \<open>str.isspace\<close>, which is also the class \<open>\s\<close> of \<open>re\<close> on \<open>str\<close> patterns:
  tab to carriage return, the four separators 0x1C to 0x1F, the space, NEL and the
  no-break space.
\<close>

definition is_space :: "char \<Rightarrow> bool" where
  "is_space c =
     ((9 \<le> ord c \<and> ord c \<le> 13) \<or> (28 \<le> ord c \<and> ord c \<le> 32) \<or> ord c = 133 \<or> ord c = 160)"

text \<open>
  The class \<open>\w\<close> of \<open>re\<close> on \<open>str\<close> patterns: the characters with
  \<open>str.isalnum\<close>, and the underscore.
\<close>

definition is_word :: "char \<Rightarrow> bool" where
  "is_word c =
     ((48 \<le> ord c \<and> ord c \<le> 57) \<or> (65 \<le> ord c \<and> ord c \<le> 90) \<or> ord c = 95
      \<or> (97 \<le> ord c \<and> ord c \<le> 122)
      \<or> ord c = 170 \<or> ord c = 178 \<or> ord c = 179 \<or> ord c = 181 \<or> ord c = 185 \<or> ord c = 186
      \<or> (188 \<le> ord c \<and> ord c \<le> 190)
      \<or> (192 \<le> ord c \<and> ord c \<noteq> 215 \<and> ord c \<noteq> 247))"

text \<open>\<open>str.strip()\<close> removes the white space at both ends.\<close>

definition strip :: "string \<Rightarrow> string" where
  "strip s = rev (dropWhile is_space (rev (dropWhile is_space s)))"

text \<open>The slice \<open>s[i:j]\<close> for \<open>0 \<le> i\<close> and \<open>0 \<le> j\<close>; Python cuts it at the end of \<open>s\<close>.\<close>

definition slice :: "'a list \<Rightarrow> nat \<Rightarrow> nat \<Rightarrow> 'a list" where
  "slice s i j = take (j - i) (drop i s)"

section \<open>The two regular expressions of the glossary service\<close>

subsection \<open>The alias pattern\<close>

text \<open>
  \<open>re.search(r'(.+)\s\((.+)\)', lower_term)\<close>. The engine backtracks: it tries the
  start positions from left to right; at one start the first group \<open>(.+)\<close> is greedy,
  so its longest extent is tried first, and so is the second group's. The dot matches
  every character but the line feed.

  \<open>match_group2 r\<close> matches \<open>(.+)\)\<close> at the beginning of \<open>r\<close> and returns the
  second group: the longest non-empty prefix of \<open>r\<close> without line feed that a closing
  parenthesis follows.
\<close>

definition match_group2 :: "string \<Rightarrow> string option" where
  "match_group2 r =
     map_option (\<lambda>k. take k r)
       (find (\<lambda>k. r ! k = CHR '')'') (rev [1..<length (takeWhile (\<lambda>c. c \<noteq> newline) r)]))"

text \<open>
  \<open>match_here t\<close> matches the whole pattern at the beginning of \<open>t\<close>: the first group
  is \<open>take j t\<close> for the largest \<open>j\<close> such that a white-space character, an opening
  parenthesis and a match of the rest follow.
\<close>

definition group1_ok :: "string \<Rightarrow> nat \<Rightarrow> bool" where
  "group1_ok t j =
     (Suc j < length t \<and> is_space (t ! j) \<and> t ! Suc j = CHR ''(''
      \<and> match_group2 (drop (j + 2) t) \<noteq> None)"

definition match_here :: "string \<Rightarrow> (string \<times> string) option" where
  "match_here t =
     (case find (group1_ok t) (rev [1..<Suc (length (takeWhile (\<lambda>c. c \<noteq> newline) t))]) of
        None \<Rightarrow> None
      | Some j \<Rightarrow> map_option (\<lambda>g2. (take j t, g2)) (match_group2 (drop (j + 2) t)))"

fun re_search :: "string \<Rightarrow> (string \<times> string) option" where
  "re_search [] = None"
| "re_search (c # cs) =
     (case match_here (c # cs) of Some g \<Rightarrow> Some g | None \<Rightarrow> re_search cs)"

subsection \<open>The phrase pattern\<close>

text \<open>
  \<open>r'\b' + re.escape(phrase) + r'\b'\<close>: the phrase, character by character, between
  two word boundaries. A position is a word boundary when exactly one of its two
  neighbours is a word character (the ends of the text count as no word character).
\<close>

definition is_boundary :: "string \<Rightarrow> nat \<Rightarrow> bool" where
  "is_boundary s p =
     ((0 < p \<and> is_word (s ! (p - 1))) \<noteq> (p < length s \<and> is_word (s ! p)))"

definition match_at :: "string \<Rightarrow> string \<Rightarrow> nat \<Rightarrow> bool" where
  "match_at phrase s i =
     (is_boundary s i \<and> take (length phrase) (drop i s) = phrase
      \<and> is_boundary s (i + length phrase))"

text \<open>
  \<open>re.finditer\<close> scans from left to right and yields the matches that do not overlap:
  after a match the scan goes on at its end, and one position further after an empty
  match.
\<close>

function finditer_from :: "string \<Rightarrow> string \<Rightarrow> nat \<Rightarrow> (nat \<times> nat) list" where
  "finditer_from phrase s pos =
     (if length s < pos then []
      else if match_at phrase s pos
      then (pos, pos + length phrase)
             # finditer_from phrase s (if phrase = [] then pos + 1 else pos + length phrase)
      else finditer_from phrase s (pos + 1))"
  by pat_completeness auto
termination
proof (relation "measure (\<lambda>(phrase, s, pos). Suc (length s) - pos)", goal_cases)
  case 1
  show ?case by simp
next
  case (2 phrase s pos)
  then show ?case by (cases phrase) (simp_all add: diff_less_mono2)
next
  case (3 phrase s pos)
  then show ?case by (simp add: diff_less_mono2)
qed

declare finditer_from.simps [simp del]

definition finditer :: "string \<Rightarrow> string \<Rightarrow> (nat \<times> nat) list" where
  "finditer phrase s = finditer_from phrase s 0"

section \<open>The glossary service\<close>

record definition_record =
  main_term :: string
  plain_alternative :: string
  source :: string

record glossary_service =
  phrase_index :: "string \<rightharpoonup> definition_record list"
  all_known_phrases :: "string set"

text \<open>
  \<open>phrase_index\<close> is a \<open>defaultdict(list)\<close>: reading a key that is absent gives the
  empty list.
\<close>

definition index_get :: "(string \<rightharpoonup> definition_record list) \<Rightarrow> string \<Rightarrow> definition_record list" where
  "index_get idx k = (case idx k of None \<Rightarrow> [] | Some ds \<Rightarrow> ds)"

subsection \<open>\<open>_generate_aliases\<close>\<close>

definition generate_aliases :: "string \<Rightarrow> string set" where
  "generate_aliases term_str =
     (let lower_term = lower term_str;
          aliases = insert lower_term {}
      in case re_search lower_term of
           None \<Rightarrow> aliases
         | Some (g1, g2) \<Rightarrow> insert (strip g2) (insert (strip g1) aliases))"

subsection \<open>\<open>_load_and_index\<close>\<close>

text \<open>
  The glossary directory as the build reads it: the files in the order of
  \<open>os.listdir\<close>, each with its name and its parsed content (\<open>None\<close> when opening or
  parsing the file raises). An entry of a file is a JSON object, of which the build reads
  the keys \<open>term\<close> and \<open>plain_alternative\<close> (\<open>None\<close> when the key is absent).
\<close>

datatype error = KeyError string | LoadError string | ListdirError

record raw_entry =
  entry_term :: "string option"
  entry_plain_alternative :: "string option"

record glossary_file =
  filename :: string
  content :: "raw_entry list option"

text \<open>\<open>s.replace(old, '')\<close> for a non-empty \<open>old\<close>: every occurrence, from the left, is removed.\<close>

fun remove_all :: "string \<Rightarrow> string \<Rightarrow> string" where
  "remove_all old [] = []"
| "remove_all old (c # cs) =
     (if prefix old (c # cs) then remove_all old (drop (length old - 1) cs)
      else c # remove_all old cs)"

text \<open>
  \<open>for alias in aliases: self.phrase_index[alias].append(definition_record)\<close>: every
  alias of the set gets the record at the end of its list, whatever the order in which
  the set is walked.
\<close>

definition index_append ::
  "(string \<rightharpoonup> definition_record list) \<Rightarrow> string set \<Rightarrow> definition_record
     \<Rightarrow> (string \<rightharpoonup> definition_record list)" where
  "index_append idx aliases d =
     (\<lambda>k. if k \<in> aliases then Some (index_get idx k @ [d]) else idx k)"

definition index_entry :: "string \<Rightarrow> raw_entry \<Rightarrow> glossary_service \<Rightarrow> error + glossary_service" where
  "index_entry source_name entry svc =
     (case entry_term entry of
        None \<Rightarrow> Inr svc
      | Some original_term \<Rightarrow>
          if original_term = [] then Inr svc
          else (case entry_plain_alternative entry of
                  None \<Rightarrow> Inl (KeyError ''plain_alternative'')
                | Some pa \<Rightarrow>
                    let definition_record =
                          \<lparr>main_term = original_term, plain_alternative = pa, source = source_name\<rparr>;
                        aliases = generate_aliases original_term
                    in Inr (svc\<lparr>phrase_index := index_append (phrase_index svc) aliases definition_record,
                                all_known_phrases := all_known_phrases svc \<union> aliases\<rparr>)))"

fun index_entries :: "string \<Rightarrow> raw_entry list \<Rightarrow> glossary_service \<Rightarrow> error + glossary_service" where
  "index_entries source_name [] svc = Inr svc"
| "index_entries source_name (entry # entries) svc =
     (case index_entry source_name entry svc of
        Inl e \<Rightarrow> Inl e
      | Inr svc' \<Rightarrow> index_entries source_name entries svc')"

fun load_and_index :: "glossary_file list \<Rightarrow> glossary_service \<Rightarrow> error + glossary_service" where
  "load_and_index [] svc = Inr svc"
| "load_and_index (f # fs) svc =
     (if suffix ''.json'' (filename f)
      then (case content f of
              None \<Rightarrow> Inl (LoadError (filename f))
            | Some data \<Rightarrow>
                (case index_entries (remove_all ''.json'' (filename f)) data svc of
                   Inl e \<Rightarrow> Inl e
                 | Inr svc' \<Rightarrow> load_and_index fs svc'))
      else load_and_index fs svc)"

text \<open>
  \<open>GlossaryService(glossaries_dir)\<close>: the constructor starts from the empty index and the
  empty phrase set. The directory is \<open>None\<close> when \<open>os.listdir\<close> raises.
\<close>

definition new_glossary_service :: "glossary_file list option \<Rightarrow> error + glossary_service" where
  "new_glossary_service dir =
     (case dir of
        None \<Rightarrow> Inl ListdirError
      | Some files \<Rightarrow> load_and_index files \<lparr>phrase_index = Map.empty, all_known_phrases = {}\<rparr>)"

subsection \<open>\<open>find_and_define_phrases_in_text_enhanced\<close>\<close>

record def_info =
  def_plain_alternative :: string
  def_source :: string

record match_info =
  alias_found :: string
  location_start :: nat
  location_end :: nat

record found_term =
  ft_main_term :: string
  definitions :: "def_info list"
  matches_in_text :: "match_info list"

record analysis_summary_rec =
  total_unique_phrases_found :: nat
  text_character_length :: nat

record glossary_result =
  analysis_summary :: analysis_summary_rec
  found_terms :: "found_term list"

text \<open>
  The dictionary \<open>found_terms\<close> keeps its keys in the order of their first insertion: an
  association list, updated in place.
\<close>

definition add_definition ::
  "string \<Rightarrow> nat \<Rightarrow> nat \<Rightarrow> definition_record \<Rightarrow> (string \<times> found_term) list
     \<Rightarrow> (string \<times> found_term) list" where
  "add_definition original_text start_pos end_pos d found =
     (let ft0 = (case map_of found (main_term d) of
                   None \<Rightarrow> \<lparr>ft_main_term = main_term d, definitions = [], matches_in_text = []\<rparr>
                 | Some ft \<Rightarrow> ft);
          di = \<lparr>def_plain_alternative = plain_alternative d, def_source = source d\<rparr>;
          ft1 = (if di \<in> set (definitions ft0) then ft0
                 else ft0\<lparr>definitions := definitions ft0 @ [di]\<rparr>);
          mi = \<lparr>alias_found = slice original_text start_pos end_pos,
                location_start = start_pos, location_end = end_pos\<rparr>;
          ft2 = (if mi \<in> set (matches_in_text ft1) then ft1
                 else ft1\<lparr>matches_in_text := matches_in_text ft1 @ [mi]\<rparr>)
      in AList.update (main_term d) ft2 found)"

definition overlaps :: "nat \<Rightarrow> nat \<Rightarrow> (nat \<times> nat) list \<Rightarrow> bool" where
  "overlaps start_pos end_pos matched_ranges =
     list_ex (\<lambda>(existing_start, existing_end). start_pos < existing_end \<and> end_pos > existing_start)
       matched_ranges"

definition process_match ::
  "(string \<rightharpoonup> definition_record list) \<Rightarrow> string \<Rightarrow> string \<Rightarrow> nat \<times> nat
     \<Rightarrow> (string \<times> found_term) list \<times> (nat \<times> nat) list
     \<Rightarrow> (string \<times> found_term) list \<times> (nat \<times> nat) list" where
  "process_match idx original_text phrase m st =
     (if overlaps (fst m) (snd m) (snd st) then st
      else (fold (add_definition original_text (fst m) (snd m)) (index_get idx phrase) (fst st),
            snd st @ [m]))"

definition process_phrase ::
  "(string \<rightharpoonup> definition_record list) \<Rightarrow> string \<Rightarrow> string \<Rightarrow> string
     \<Rightarrow> (string \<times> found_term) list \<times> (nat \<times> nat) list
     \<Rightarrow> (string \<times> found_term) list \<times> (nat \<times> nat) list" where
  "process_phrase idx original_text text_lower phrase st =
     fold (process_match idx original_text phrase) (finditer phrase text_lower) st"

text \<open>
  \<open>sorted(list(self.all_known_phrases), key=len, reverse=True)\<close>. The sort is stable,
  also with \<open>reverse=True\<close>: phrases of one length keep the order in which the set
  hands them out. That order is not fixed by the program, so the matcher takes the list
  \<open>list(self.all_known_phrases)\<close> as its argument \<open>phrases\<close>.
\<close>

definition sorted_phrases :: "string list \<Rightarrow> string list" where
  "sorted_phrases phrases = sort_key (\<lambda>p. - int (length p)) phrases"

definition find_and_define_phrases_in_text_enhanced ::
  "glossary_service \<Rightarrow> string list \<Rightarrow> string \<Rightarrow> glossary_result" where
  "find_and_define_phrases_in_text_enhanced svc phrases text =
     (let st = fold (process_phrase (phrase_index svc) text (lower text))
                 (sorted_phrases phrases) ([], [])
      in \<lparr>analysis_summary =
             \<lparr>total_unique_phrases_found = length (fst st), text_character_length = length text\<rparr>,
          found_terms = map snd (fst st)\<rparr>)"

text \<open>The list \<open>phrases\<close> walks the set \<open>all_known_phrases\<close> of the service once.\<close>

definition walks :: "string list \<Rightarrow> glossary_service \<Rightarrow> bool" where
  "walks phrases svc = (distinct phrases \<and> set phrases = all_known_phrases svc)"

section \<open>The singleton of the glossary service\<close>

record singleton =
  service :: "glossary_service option"
  initialized :: bool

text \<open>
  \<open>get_service\<close> takes the state of the glossary directory at the time of the call.
  It returns the service, the new state of the singleton, and whether it has called the
  constructor \<open>GlossaryService\<close>.
\<close>

definition get_service ::
  "glossary_file list option \<Rightarrow> singleton \<Rightarrow> glossary_service option \<times> singleton \<times> bool" where
  "get_service dir st =
     (if \<not> initialized st
      then (case new_glossary_service dir of
              Inr svc \<Rightarrow> (Some svc, st\<lparr>service := Some svc, initialized := True\<rparr>, True)
            | Inl e \<Rightarrow> (None, st\<lparr>service := None, initialized := True\<rparr>, True))
      else (service st, st, False))"

definition reset :: "singleton \<Rightarrow> singleton" where
  "reset st = st\<lparr>service := None, initialized := False\<rparr>"

text \<open>A run of calls of \<open>get_service\<close>, one after the other, with what each call returned.\<close>

fun get_service_calls ::
  "glossary_file list option list \<Rightarrow> singleton
     \<Rightarrow> (glossary_service option \<times> bool) list \<times> singleton" where
  "get_service_calls [] st = ([], st)"
| "get_service_calls (dir # dirs) st =
     (case get_service dir st of
        (r, st', built) \<Rightarrow>
          (case get_service_calls dirs st' of (rs, st'') \<Rightarrow> ((r, built) # rs, st'')))"

section \<open>The PLS evaluation tool\<close>

text \<open>
  Metric values and thresholds are Python floats; the embedding takes them as real
  numbers. The comparisons of \<open>_evaluate_metric\<close> are exact on floats, and the rounding of
  the one division and multiplication behind \<open>best_quartile_rate\<close> is not modelled.
\<close>

datatype rating = P25 | P50 | P75 | P90 | P10 | BEYOND_P90 | BELOW_P10

record threshold_data =
  excellent :: real
  good :: real
  acceptable :: real
  poor :: real
  direction :: string

text \<open>
  The feedback is a formatted sentence; the embedding keeps what it is built from: whether
  it advises to increase or to reduce, the value and the target.
\<close>

datatype feedback = Increase real real | Reduce real real

record metric_evaluation =
  ev_value :: real
  ev_rating :: rating
  ev_direction :: string
  ev_feedback :: "feedback option"

definition evaluate_metric :: "string \<Rightarrow> real \<Rightarrow> threshold_data \<Rightarrow> string \<Rightarrow> metric_evaluation" where
  "evaluate_metric feature v thresholds dir =
     (let r = (if dir = ''higher_better''
               then (if v \<ge> excellent thresholds then P75
                     else if v \<ge> good thresholds then P50
                     else if v \<ge> acceptable thresholds then P25
                     else if v \<ge> poor thresholds then P10
                     else BELOW_P10)
               else (if v \<le> excellent thresholds then P25
                     else if v \<le> good thresholds then P50
                     else if v \<le> acceptable thresholds then P75
                     else if v \<le> poor thresholds then P90
                     else BEYOND_P90));
          fb = (if dir = ''higher_better''
                then (if r = P10 \<or> r = BELOW_P10 then Some (Increase v (good thresholds)) else None)
                else (if r = P90 \<or> r = BEYOND_P90 then Some (Reduce v (good thresholds)) else None))
      in \<lparr>ev_value = v, ev_rating = r, ev_direction = dir, ev_feedback = fb\<rparr>)"

definition recommended_features :: "string list" where
  "recommended_features =
     [''words_per_sentence'', ''passive_voice'', ''active_voice'', ''sentences_per_paragraph'',
      ''pronouns'', ''nominalization'', ''verbs'', ''nouns'', ''numbers'',
      ''flesch_reading_ease'', ''flesch_kincaid_grade'', ''automated_readability_index'',
      ''coleman_liau_index'', ''gunning_fog_index'', ''lix'', ''rix'', ''smog_index'',
      ''dale_chall_readability'',
      ''complex_words_dc'', ''complex_words'', ''long_words'', ''syllables_per_word'',
      ''polysyllables'',
      ''tobeverb'', ''auxverb'', ''subordinating_conjunctions'',
      ''words'', ''sentences'', ''paragraphs'']"

text \<open>
  One round of the loop of \<open>execute\<close> over the recommended features. The state is the
  list of the evaluations done so far, in the order of the loop, and \<open>rating_counts\<close>.
\<close>

definition evaluate_feature ::
  "(string \<rightharpoonup> real) \<Rightarrow> (string \<rightharpoonup> threshold_data) \<Rightarrow> string
     \<Rightarrow> (string \<times> metric_evaluation) list \<times> (rating \<Rightarrow> nat)
     \<Rightarrow> (string \<times> metric_evaluation) list \<times> (rating \<Rightarrow> nat)" where
  "evaluate_feature features thresholds feature st =
     (if feature = ''words'' \<or> feature = ''sentences'' then st
      else (case features feature of
              None \<Rightarrow> st
            | Some v \<Rightarrow>
                (case thresholds feature of
                   None \<Rightarrow> st
                 | Some threshold_data \<Rightarrow>
                     let evaluation = evaluate_metric feature v threshold_data (direction threshold_data)
                     in (fst st @ [(feature, evaluation)],
                         (snd st)(ev_rating evaluation := snd st (ev_rating evaluation) + 1)))))"

definition evaluate_features ::
  "(string \<rightharpoonup> real) \<Rightarrow> (string \<rightharpoonup> threshold_data)
     \<Rightarrow> (string \<times> metric_evaluation) list \<times> (rating \<Rightarrow> nat)" where
  "evaluate_features features thresholds =
     fold (evaluate_feature features thresholds) recommended_features ([], \<lambda>r. 0)"

text \<open>
  The summary of \<open>execute\<close>: the seven counts, their sum and \<open>best_quartile_rate\<close>. The
  percentages and the label \<open>overall_assessment\<close>, float arithmetic on the same counts,
  and the entries for the word and sentence counts are left out.
\<close>

record evaluation_summary =
  rating_counts :: "rating \<Rightarrow> nat"
  total_evaluated :: nat
  best_quartile_rate :: real

record evaluation_data =
  linguistic_evaluation :: "(string \<times> metric_evaluation) list"
  summary :: evaluation_summary

definition summarise :: "(rating \<Rightarrow> nat) \<Rightarrow> evaluation_summary" where
  "summarise rc =
     (let total = rc P25 + rc P50 + rc P75 + rc P90 + rc P10 + rc BEYOND_P90 + rc BELOW_P10;
          best_quartile = rc P25 + rc P75
      in \<lparr>rating_counts = rc, total_evaluated = total,
          best_quartile_rate =
            (if total > 0 then (real best_quartile / real total) * 100 else 0)\<rparr>)"

text \<open>
  \<open>execute\<close> takes the text of the request (\<open>None\<close> when the parameter is absent), the
  answer of the linguistic analysis (its error message, or the features) and the
  threshold table. It answers with an error when the text is empty or absent and when
  the analysis fails.
\<close>

datatype execute_error = TextRequired | LinguisticAnalysisFailed string

definition execute ::
  "string option \<Rightarrow> string + (string \<rightharpoonup> real) \<Rightarrow> (string \<rightharpoonup> threshold_data)
     \<Rightarrow> execute_error + evaluation_data" where
  "execute text linguistic_response thresholds =
     (if text = None \<or> text = Some [] then Inl TextRequired
      else (case linguistic_response of
              Inl err \<Rightarrow> Inl (LinguisticAnalysisFailed err)
            | Inr features \<Rightarrow>
                let st = evaluate_features features thresholds
                in Inr \<lparr>linguistic_evaluation = fst st, summary = summarise (snd st)\<rparr>))"

text \<open>
  The rate as the comment in \<open>execute\<close> words it, "Count features in best quartile
  (P25 for lower_better, P75 for higher_better)": an evaluated feature is in the best
  quartile when its rating is the best bucket of its own direction.
\<close>

definition in_best_quartile :: "metric_evaluation \<Rightarrow> bool" where
  "in_best_quartile ev =
     ((ev_direction ev = ''higher_better'' \<and> ev_rating ev = P75)
      \<or> (ev_direction ev = ''lower_better'' \<and> ev_rating ev = P25))"

definition best_quartile_rate_by_direction :: "(string \<times> metric_evaluation) list \<Rightarrow> real" where
  "best_quartile_rate_by_direction evs =
     100 * real (length (filter (\<lambda>fe. in_best_quartile (snd fe)) evs)) / real (length evs)"

section \<open>Example inputs\<close>

text \<open>The threshold entry of the rating example: a feature for which higher is better.\<close>

definition example_thresholds :: threshold_data where
  "example_thresholds =
     \<lparr>excellent = 70, good = 50, acceptable = 30, poor = 10, direction = ''higher_better''\<rparr>"

text \<open>
  The singleton before its first call, and a singleton after a construction that failed.
\<close>

definition fresh_singleton :: singleton where
  "fresh_singleton = \<lparr>service = None, initialized = False\<rparr>"

definition failed_state :: "singleton \<Rightarrow> singleton" where
  "failed_state st = st\<lparr>service := None, initialized := True\<rparr>"

text \<open>
  The text of the overlap test, and a glossary of one file with the two terms
  "disease" and "chronic disease", with the service built from it.
\<close>

definition overlap_text :: string where
  "overlap_text = ''This chronic disease is not just any disease.''"

definition disease_glossary :: "glossary_file list" where
  "disease_glossary =
     [\<lparr>filename = ''glossary.json'',
       content = Some [\<lparr>entry_term = Some ''disease'', entry_plain_alternative = Some ''illness''\<rparr>,
                       \<lparr>entry_term = Some ''chronic disease'',
                        entry_plain_alternative = Some ''illness that lasts a long time''\<rparr>]\<rparr>]"

definition disease_service :: glossary_service where
  "disease_service =
     (case new_glossary_service (Some disease_glossary) of
        Inr svc \<Rightarrow> svc
      | Inl e \<Rightarrow> \<lparr>phrase_index = Map.empty, all_known_phrases = {}\<rparr>)"

text \<open>
  A glossary with a term in the shape "main (alt)", an entry without term that the build
  skips, and the service built from it.
\<close>

definition pertussis_glossary :: "glossary_file list" where
  "pertussis_glossary =
     [\<lparr>filename = ''vaccines.json'',
       content = Some [\<lparr>entry_term = Some ''disease'', entry_plain_alternative = Some ''illness''\<rparr>,
                       \<lparr>entry_term = None, entry_plain_alternative = Some ''no term''\<rparr>,
                       \<lparr>entry_term = Some ''Pertussis (Whooping Cough)'',
                        entry_plain_alternative = Some ''a lung infection with coughing fits''\<rparr>]\<rparr>]"

definition pertussis_service :: glossary_service where
  "pertussis_service =
     (case new_glossary_service (Some pertussis_glossary) of
        Inr svc \<Rightarrow> svc
      | Inl e \<Rightarrow> \<lparr>phrase_index = Map.empty, all_known_phrases = {}\<rparr>)"

text \<open>
  A glossary whose one term has only a blank between its parentheses, and the service
  built from it.
\<close>

definition blank_alias_glossary :: "glossary_file list" where
  "blank_alias_glossary =
     [\<lparr>filename = ''glossary.json'',
       content = Some [\<lparr>entry_term = Some ''Polio ( )'',
                        entry_plain_alternative = Some ''a disease that can paralyse''\<rparr>]\<rparr>]"

definition blank_alias_service :: glossary_service where
  "blank_alias_service =
     (case new_glossary_service (Some blank_alias_glossary) of
        Inr svc \<Rightarrow> svc
      | Inl e \<Rightarrow> \<lparr>phrase_index = Map.empty, all_known_phrases = {}\<rparr>)"

section \<open>Predicates of the statements and of the invariants\<close>

text \<open>
  \<open>space_paren s\<close>: somewhere in \<open>s\<close> a white-space character stands right before an
  opening parenthesis.
\<close>

definition space_paren :: "string \<Rightarrow> bool" where
  "space_paren s =
     list_ex (\<lambda>k. is_space (s ! k) \<and> s ! Suc k = CHR ''('') [0..<length s - 1]"

text \<open>
  \<open>embedded s i n\<close>: the \<open>n\<close> characters of \<open>s\<close> from position \<open>i\<close> have a word
  character right before or right after them, so they are a proper part of a longer
  word. \<open>only_embedded phrase s\<close>: every occurrence of \<open>phrase\<close> in \<open>s\<close> is embedded.
\<close>

definition embedded :: "string \<Rightarrow> nat \<Rightarrow> nat \<Rightarrow> bool" where
  "embedded s i n =
     ((0 < i \<and> is_word (s ! (i - 1))) \<or> (i + n < length s \<and> is_word (s ! (i + n))))"

definition only_embedded :: "string \<Rightarrow> string \<Rightarrow> bool" where
  "only_embedded phrase s =
     list_all (\<lambda>i. take (length phrase) (drop i s) \<noteq> phrase \<or> embedded s i (length phrase))
       [0..<Suc (length s)]"

text \<open>The invariant of the index build: every key is lower-case and a known phrase.\<close>

definition index_ok :: "glossary_service \<Rightarrow> bool" where
  "index_ok svc =
     (\<forall>a \<in> dom (phrase_index svc). lower a = a \<and> a \<in> all_known_phrases svc)"

text \<open>
  The invariant of the matcher's loops: every span reported so far is a match of one of
  the phrases in the lower-cased text, as long as that phrase, and carries the slice of
  the original text.
\<close>

definition span_ok :: "string \<Rightarrow> string list \<Rightarrow> match_info \<Rightarrow> bool" where
  "span_ok text phrases m =
     list_ex (\<lambda>p. match_at p (lower text) (location_start m)
                 \<and> location_end m = location_start m + length p
                 \<and> alias_found m = slice text (location_start m) (location_end m)) phrases"

definition all_spans :: "(match_info \<Rightarrow> bool) \<Rightarrow> (string \<times> found_term) list \<Rightarrow> bool" where
  "all_spans P found = list_all (\<lambda>kv. list_all P (matches_in_text (snd kv))) found"

section \<open>Facts about the character classes\<close>

lemma ord_less_256: "ord c < 256"
  unfolding ord_def by (metis of_char_mod_256 mod_less_divisor zero_less_numeral)

lemma ord_eq_iff: "ord c = ord d \<longleftrightarrow> c = d"
  by (simp add: ord_def)

lemma ord_char_lower:
  "ord (char_lower c) =
     (if (65 \<le> ord c \<and> ord c \<le> 90) \<or> (192 \<le> ord c \<and> ord c \<le> 222 \<and> ord c \<noteq> 215)
      then ord c + 32 else ord c)"
  using ord_less_256 [of c] by (auto simp: char_lower_def ord_def)

lemma ord_newline: "ord newline = 10"
  by (simp add: ord_def newline_def)

lemma ord_lparen: "ord (CHR ''('') = 40"
  by (simp add: ord_def)

lemma ord_rparen: "ord (CHR '')'') = 41"
  by (simp add: ord_def)

lemma ord_blank: "ord (CHR '' '') = 32"
  by (simp add: ord_def)

lemma char_lower_space: "is_space c \<Longrightarrow> char_lower c = c"
  by (auto simp: is_space_def char_lower_def)

lemma is_space_char_lower: "is_space (char_lower c) = is_space c"
  unfolding is_space_def ord_char_lower by auto

lemma char_lower_newline: "char_lower c = newline \<longleftrightarrow> c = newline"
  unfolding ord_eq_iff [symmetric] ord_char_lower ord_newline by auto

lemma char_lower_lparen: "char_lower c = CHR ''('' \<longleftrightarrow> c = CHR ''(''"
  unfolding ord_eq_iff [symmetric] ord_char_lower ord_lparen by auto

lemma char_lower_idem: "char_lower (char_lower c) = char_lower c"
  unfolding ord_eq_iff [symmetric] ord_char_lower by auto

lemma lower_idem: "lower (lower s) = lower s"
  by (simp add: lower_def char_lower_idem)

lemma not_space_lparen: "\<not> is_space (CHR ''('')"
  by (simp add: is_space_def ord_lparen)

section \<open>The alias generator\<close>

lemma match_here_lparen: "match_here t = Some g \<Longrightarrow> CHR ''('' \<in> set t"
proof -
  assume "match_here t = Some g"
  then obtain j where
    "find (group1_ok t) (rev [1..<Suc (length (takeWhile (\<lambda>c. c \<noteq> newline) t))]) = Some j"
    by (auto simp: match_here_def split: option.splits)
  then have "group1_ok t j"
    by (auto simp: find_Some_iff)
  then have "Suc j < length t" "t ! Suc j = CHR ''(''"
    by (simp_all add: group1_ok_def)
  then show ?thesis
    by (metis nth_mem)
qed

lemma re_search_lparen: "re_search s = Some g \<Longrightarrow> CHR ''('' \<in> set s"
proof (induction s)
  case Nil
  then show ?case by simp
next
  case (Cons c cs)
  then show ?case
    by (auto split: option.splits dest: match_here_lparen)
qed

text \<open>
  C7, as the code has it. For a term that is empty or made of white space only,
  \<open>_generate_aliases\<close> returns the one-element set that holds the term itself, unchanged:
  the lower-cased term is added without stripping, and the pattern finds no parenthesis.
  The set is \<open>{""}\<close> for the empty term only.
\<close>

theorem generate_aliases_blank:
  "list_all is_space t \<Longrightarrow> generate_aliases t = {t}"
proof -
  assume ws: "list_all is_space t"
  then have "lower t = t"
    by (induction t) (simp_all add: lower_def char_lower_space)
  moreover have "CHR ''('' \<notin> set t"
    using ws not_space_lparen by (auto simp: list_all_iff)
  then have "re_search t = None"
    using re_search_lparen by (cases "re_search t") auto
  ultimately show ?thesis
    by (simp add: generate_aliases_def)
qed

theorem generate_aliases_blank_witness:
  "list_all is_space ''  '' \<and> generate_aliases ''  '' = {''  ''}"
  using generate_aliases_blank [of "''  ''"] by (simp add: is_space_def ord_def)

text \<open>
  C7, as the claim words it, fails on the term of one space: the result is the set of
  that one-space string, not the set of the empty string.
\<close>

theorem generate_aliases_blank_counterexample:
  "list_all is_space '' '' \<and> generate_aliases '' '' \<noteq> {[]}"
  by code_simp

section \<open>The matcher\<close>

lemma finditer_empty_text: "finditer phrase [] = []"
  by (simp add: finditer_def finditer_from.simps [of phrase "[]"] match_at_def is_boundary_def)

lemma fold_unchanged: "(\<And>x s. f x s = s) \<Longrightarrow> fold f xs s = s"
  by (induction xs arbitrary: s) simp_all

text \<open>
  C8. On the empty text the enhanced matcher returns no found term, the count 0 and the
  length 0, for every index and every phrase list. The matcher is a total function with
  no error value: on the empty text no pattern matches, so the index is never read.
\<close>

theorem enhanced_empty_text:
  "find_and_define_phrases_in_text_enhanced svc phrases [] =
     \<lparr>analysis_summary = \<lparr>total_unique_phrases_found = 0, text_character_length = 0\<rparr>,
      found_terms = []\<rparr>"
proof -
  have "process_phrase idx [] [] p st = st" for idx p st
    by (simp add: process_phrase_def finditer_empty_text)
  then have "fold (process_phrase idx [] []) ps st = st" for idx ps st
    by (rule fold_unchanged)
  then show ?thesis
    by (simp add: find_and_define_phrases_in_text_enhanced_def lower_def)
qed

section \<open>The rating of one metric\<close>

text \<open>
  C4. For a threshold entry with direction \<open>higher_better\<close> and thresholds
  \<open>excellent \<ge> good \<ge> acceptable \<ge> poor\<close>, the rating is \<open>P75\<close> if the value reaches
  \<open>excellent\<close>, else \<open>P50\<close> if it reaches \<open>good\<close>, else \<open>P25\<close> if it reaches
  \<open>acceptable\<close>, else \<open>P10\<close> if it reaches \<open>poor\<close>, else \<open>BELOW_P10\<close>. With the
  thresholds 70, 50, 30, 10 the values 80, 50, 35, 15, 5 are rated \<open>P75\<close>, \<open>P50\<close>,
  \<open>P25\<close>, \<open>P10\<close>, \<open>BELOW_P10\<close>.
\<close>

theorem evaluate_metric_higher_better:
  assumes "direction th = ''higher_better''"
    and "excellent th \<ge> good th" and "good th \<ge> acceptable th" and "acceptable th \<ge> poor th"
  shows "ev_rating (evaluate_metric feature v th (direction th)) =
           (if v \<ge> excellent th then P75
            else if v \<ge> good th then P50
            else if v \<ge> acceptable th then P25
            else if v \<ge> poor th then P10
            else BELOW_P10)
         \<and> map (\<lambda>x. ev_rating (evaluate_metric feature x example_thresholds
                                   (direction example_thresholds))) [80, 50, 35, 15, 5]
             = [P75, P50, P25, P10, BELOW_P10]"
  using assms by (simp add: evaluate_metric_def example_thresholds_def)

theorem evaluate_metric_higher_better_witness:
  "direction example_thresholds = ''higher_better''
   \<and> excellent example_thresholds \<ge> good example_thresholds
   \<and> good example_thresholds \<ge> acceptable example_thresholds
   \<and> acceptable example_thresholds \<ge> poor example_thresholds
   \<and> ev_rating (evaluate_metric ''flesch_reading_ease'' 35 example_thresholds
                  (direction example_thresholds)) = P25"
  using evaluate_metric_higher_better
    [where th = example_thresholds and v = 35 and feature = "''flesch_reading_ease''"]
  by (simp add: example_thresholds_def)

section \<open>The best-quartile rate\<close>

text \<open>
  C1, at an input where the code leaves it. One feature is evaluated, with direction
  \<open>higher_better\<close> and the value 35 between \<open>acceptable\<close> and \<open>good\<close>: its rating is
  \<open>P25\<close>, the third bucket of its direction. \<open>execute\<close> adds the counts of \<open>P25\<close> and
  \<open>P75\<close> whatever the direction, so it reports the rate 100, where the rate by
  direction, which the comment in the code announces, is 0.
\<close>

theorem best_quartile_rate_counts_third_bucket:
  "(case execute (Some ''Some text.'') (Inr [''flesch_reading_ease'' \<mapsto> 35])
           [''flesch_reading_ease'' \<mapsto> example_thresholds] of
      Inl e \<Rightarrow> False
    | Inr d \<Rightarrow>
        map (\<lambda>fe. (fst fe, ev_direction (snd fe), ev_rating (snd fe))) (linguistic_evaluation d)
          = [(''flesch_reading_ease'', ''higher_better'', P25)]
        \<and> total_evaluated (summary d) = 1
        \<and> best_quartile_rate (summary d) = 100
        \<and> best_quartile_rate_by_direction (linguistic_evaluation d) = 0)"
  by (simp add: execute_def evaluate_features_def recommended_features_def evaluate_feature_def
      evaluate_metric_def summarise_def example_thresholds_def best_quartile_rate_by_direction_def
      in_best_quartile_def)

section \<open>The singleton\<close>

lemma get_service_initialized:
  "initialized st \<Longrightarrow> get_service dir st = (service st, st, False)"
  by (simp add: get_service_def)

lemma get_service_calls_initialized:
  "initialized st \<Longrightarrow>
     get_service_calls dirs st = (map (\<lambda>d. (service st, False)) dirs, st)"
  by (induction dirs) (simp_all add: get_service_initialized)

text \<open>
  C10. When the singleton is not initialized and the construction of the service fails,
  \<open>get_service\<close> returns \<open>None\<close> and leaves the singleton initialized with no service.
  From there every run of further calls, whatever the directory holds by then, returns
  \<open>None\<close> each time, never calls the constructor and leaves the state as it is. After a
  \<open>reset\<close> the next call does call the constructor again and returns what it gives.
\<close>

theorem get_service_failure_sticks:
  assumes "\<not> initialized st" and "new_glossary_service dir = Inl e"
  shows "get_service dir st = (None, failed_state st, True)
         \<and> initialized (failed_state st)
         \<and> get_service_calls dirs (failed_state st)
             = (map (\<lambda>d. (None, False)) dirs, failed_state st)
         \<and> get_service dir' (reset (failed_state st))
             = (case new_glossary_service dir' of
                  Inr svc \<Rightarrow> (Some svc, st\<lparr>service := Some svc, initialized := True\<rparr>, True)
                | Inl e' \<Rightarrow> (None, failed_state st, True))"
proof -
  have "get_service dir st = (None, failed_state st, True)"
    using assms by (simp add: get_service_def failed_state_def)
  moreover have i: "initialized (failed_state st)" "service (failed_state st) = None"
    by (simp_all add: failed_state_def)
  moreover have "get_service_calls dirs (failed_state st)
             = (map (\<lambda>d. (None, False)) dirs, failed_state st)"
    using get_service_calls_initialized [OF i(1), of dirs] i(2) by simp
  moreover have "get_service dir' (reset (failed_state st))
             = (case new_glossary_service dir' of
                  Inr svc \<Rightarrow> (Some svc, st\<lparr>service := Some svc, initialized := True\<rparr>, True)
                | Inl e' \<Rightarrow> (None, failed_state st, True))"
    by (simp add: get_service_def reset_def failed_state_def split: sum.splits)
  ultimately show ?thesis by simp
qed

theorem get_service_failure_sticks_witness:
  "\<not> initialized fresh_singleton \<and> new_glossary_service None = Inl ListdirError
   \<and> get_service None fresh_singleton = (None, failed_state fresh_singleton, True)
   \<and> get_service_calls [Some [], None] (failed_state fresh_singleton)
       = ([(None, False), (None, False)], failed_state fresh_singleton)
   \<and> snd (snd (get_service (Some []) (reset (failed_state fresh_singleton))))"
  using get_service_failure_sticks
    [where st = fresh_singleton and dir = None and e = ListdirError
      and dirs = "[Some [], None]" and dir' = "Some []"]
  by (simp add: fresh_singleton_def new_glossary_service_def)

section \<open>Longest match first\<close>

lemma two_phrases:
  assumes "distinct ps" and "set ps = {a, b}" and "a \<noteq> b"
  shows "ps = [a, b] \<or> ps = [b, a]"
proof -
  have "length ps = 2"
    using assms by (metis card_2_iff distinct_card)
  then obtain x y where ps: "ps = [x, y]"
    by (auto simp: length_Suc_conv numeral_2_eq_2)
  with assms show ?thesis
    by (auto simp: doubleton_eq_iff)
qed

lemma lower_overlap_text:
  "lower overlap_text = ''this chronic disease is not just any disease.''"
  unfolding overlap_text_def by code_simp

lemma finditer_chronic:
  "finditer ''chronic disease'' ''this chronic disease is not just any disease.'' = [(5, 20)]"
  by code_simp

lemma finditer_disease:
  "finditer ''disease'' ''this chronic disease is not just any disease.'' = [(13, 20), (37, 44)]"
  by code_simp

lemma sorted_two:
  "sorted_phrases [''disease'', ''chronic disease''] = [''chronic disease'', ''disease'']"
  "sorted_phrases [''chronic disease'', ''disease''] = [''chronic disease'', ''disease'']"
  by (simp_all add: sorted_phrases_def)

lemma slices_overlap_text:
  "slice overlap_text 5 20 = ''chronic disease''"
  "slice overlap_text 37 44 = ''disease''"
  unfolding overlap_text_def by code_simp+

lemma disease_service_built:
  "new_glossary_service (Some disease_glossary) = Inr disease_service"
proof -
  have "\<not> isl (new_glossary_service (Some disease_glossary))"
    unfolding disease_glossary_def by code_simp
  then show ?thesis
    by (cases "new_glossary_service (Some disease_glossary)") (simp_all add: disease_service_def)
qed

lemma disease_service_phrases:
  "all_known_phrases disease_service = {''disease'', ''chronic disease''}"
  unfolding disease_service_def disease_glossary_def by code_simp

lemma disease_service_index:
  "phrase_index disease_service ''disease''
     = Some [\<lparr>main_term = ''disease'', plain_alternative = ''illness'', source = ''glossary''\<rparr>]"
  "phrase_index disease_service ''chronic disease''
     = Some [\<lparr>main_term = ''chronic disease'',
               plain_alternative = ''illness that lasts a long time'', source = ''glossary''\<rparr>]"
  unfolding disease_service_def disease_glossary_def by code_simp+

text \<open>
  C2. The index holds exactly the two phrases "disease" and "chronic disease", each with
  the one record of its own term. On the text
  "This chronic disease is not just any disease." the enhanced matcher returns, whatever
  the order in which the phrase set is walked, two found terms: "chronic disease" with
  the one span 5 to 20, and "disease" with the one span 37 to 44. The occurrence of
  "disease" at 13 to 20, inside the first span, is not reported.
\<close>

theorem longest_match_priority:
  assumes "all_known_phrases svc = {''disease'', ''chronic disease''}"
    and "phrase_index svc ''disease'' = Some [d1]" and "main_term d1 = ''disease''"
    and "phrase_index svc ''chronic disease'' = Some [d2]" and "main_term d2 = ''chronic disease''"
    and "walks phrases svc"
  shows "map (\<lambda>ft. (ft_main_term ft, matches_in_text ft))
           (found_terms (find_and_define_phrases_in_text_enhanced svc phrases overlap_text))
         = [(''chronic disease'',
               [\<lparr>alias_found = ''chronic disease'', location_start = 5, location_end = 20\<rparr>]),
            (''disease'',
               [\<lparr>alias_found = ''disease'', location_start = 37, location_end = 44\<rparr>])]"
proof -
  have "phrases = [''disease'', ''chronic disease''] \<or> phrases = [''chronic disease'', ''disease'']"
    using assms(1,6) two_phrases [of phrases "''disease''" "''chronic disease''"]
    by (simp add: walks_def)
  then have sp: "sorted_phrases phrases = [''chronic disease'', ''disease'']"
    using sorted_two by auto
  show ?thesis
    using assms(2-5)
    by (simp add: find_and_define_phrases_in_text_enhanced_def sp lower_overlap_text
        process_phrase_def finditer_chronic finditer_disease process_match_def overlaps_def
        index_get_def add_definition_def slices_overlap_text)
qed

theorem longest_match_priority_witness:
  "new_glossary_service (Some disease_glossary) = Inr disease_service
   \<and> walks [''disease'', ''chronic disease''] disease_service
   \<and> map (\<lambda>ft. (ft_main_term ft, matches_in_text ft))
        (found_terms (find_and_define_phrases_in_text_enhanced disease_service
           [''disease'', ''chronic disease''] overlap_text))
      = [(''chronic disease'',
            [\<lparr>alias_found = ''chronic disease'', location_start = 5, location_end = 20\<rparr>]),
         (''disease'',
            [\<lparr>alias_found = ''disease'', location_start = 37, location_end = 44\<rparr>])]"
proof -
  have w: "walks [''disease'', ''chronic disease''] disease_service"
    by (simp add: walks_def disease_service_phrases)
  show ?thesis
    using disease_service_built w
      longest_match_priority [OF disease_service_phrases disease_service_index(1) _
        disease_service_index(2) _ w]
    by simp
qed

section \<open>The index build\<close>

lemma lower_eq_iff: "lower s = s \<longleftrightarrow> (\<forall>c \<in> set s. char_lower c = c)"
  by (induction s) (auto simp: lower_def)

lemma lower_subset: "lower s = s \<Longrightarrow> set g \<subseteq> set s \<Longrightarrow> lower g = g"
  by (auto simp: lower_eq_iff)

lemma set_strip: "set (strip s) \<subseteq> set s"
  by (auto simp: strip_def dest!: set_dropWhileD)

lemma match_group2_subset: "match_group2 r = Some g \<Longrightarrow> set g \<subseteq> set r"
  by (auto simp: match_group2_def dest: in_set_takeD)

lemma match_here_subset:
  "match_here t = Some (g1, g2) \<Longrightarrow> set g1 \<subseteq> set t \<and> set g2 \<subseteq> set t"
  by (auto simp: match_here_def split: option.splits
      dest!: match_group2_subset dest: in_set_takeD in_set_dropD)

lemma re_search_subset:
  "re_search s = Some (g1, g2) \<Longrightarrow> set g1 \<subseteq> set s \<and> set g2 \<subseteq> set s"
proof (induction s)
  case Nil
  then show ?case by simp
next
  case (Cons c cs)
  show ?case
  proof (cases "match_here (c # cs)")
    case None
    with Cons show ?thesis by auto
  next
    case (Some g)
    with Cons.prems have "match_here (c # cs) = Some (g1, g2)" by simp
    then show ?thesis by (rule match_here_subset)
  qed
qed

lemma generate_aliases_lower: "a \<in> generate_aliases t \<Longrightarrow> lower a = a"
proof -
  assume a: "a \<in> generate_aliases t"
  have l: "lower (lower t) = lower t" by (rule lower_idem)
  show ?thesis
  proof (cases "re_search (lower t)")
    case None
    with a l show ?thesis by (simp add: generate_aliases_def)
  next
    case (Some g)
    obtain g1 g2 where g: "g = (g1, g2)" by (cases g)
    with Some have "set g1 \<subseteq> set (lower t)" "set g2 \<subseteq> set (lower t)"
      using re_search_subset by blast+
    then have "lower (strip g1) = strip g1" "lower (strip g2) = strip g2"
      using set_strip l by (meson lower_subset subset_trans)+
    with a l Some g show ?thesis
      by (auto simp: generate_aliases_def)
  qed
qed

lemma index_entry_ok:
  "index_ok svc \<Longrightarrow> index_entry src entry svc = Inr svc' \<Longrightarrow> index_ok svc'"
  by (auto simp: index_entry_def index_ok_def index_append_def Let_def dom_def generate_aliases_lower
      split: option.splits if_splits)

lemma index_entries_ok:
  "index_ok svc \<Longrightarrow> index_entries src entries svc = Inr svc' \<Longrightarrow> index_ok svc'"
proof (induction entries arbitrary: svc)
  case Nil
  then show ?case by simp
next
  case (Cons entry entries)
  then show ?case
    by (auto split: sum.splits dest: index_entry_ok)
qed

lemma load_and_index_ok:
  "index_ok svc \<Longrightarrow> load_and_index files svc = Inr svc' \<Longrightarrow> index_ok svc'"
proof (induction files arbitrary: svc)
  case Nil
  then show ?case by simp
next
  case (Cons f fs)
  then show ?case
    by (auto split: sum.splits option.splits if_splits dest: index_entries_ok)
qed

text \<open>
  C9. When the constructor of the service returns, every key of \<open>phrase_index\<close> is equal
  to its own lower-casing and is a member of \<open>all_known_phrases\<close>.
\<close>

theorem index_aliases_lowercase_known:
  assumes "new_glossary_service dir = Inr svc" and "alias \<in> dom (phrase_index svc)"
  shows "lower alias = alias \<and> alias \<in> all_known_phrases svc"
proof -
  have "index_ok \<lparr>phrase_index = Map.empty, all_known_phrases = {}\<rparr>"
    by (simp add: index_ok_def)
  with assms(1) have "index_ok svc"
    by (auto simp: new_glossary_service_def split: option.splits dest: load_and_index_ok)
  with assms(2) show ?thesis
    by (simp add: index_ok_def)
qed

section \<open>The spans of the matcher\<close>

lemma finditer_from_sound:
  "(a, b) \<in> set (finditer_from p s pos) \<Longrightarrow> match_at p s a \<and> b = a + length p"
proof (induction p s pos rule: finditer_from.induct)
  case (1 phrase s pos)
  from "1.prems" show ?case
    by (subst (asm) finditer_from.simps) (auto split: if_splits dest: "1.IH")
qed

lemma finditer_sound:
  "(a, b) \<in> set (finditer p s) \<Longrightarrow> match_at p s a \<and> b = a + length p"
  unfolding finditer_def by (rule finditer_from_sound)

lemma all_spans_update:
  "all_spans P found \<Longrightarrow> list_all P (matches_in_text ft) \<Longrightarrow> all_spans P (AList.update k ft found)"
  by (induction found) (auto simp: all_spans_def)

lemma all_spans_map_of:
  "all_spans P found \<Longrightarrow> map_of found k = Some ft \<Longrightarrow> list_all P (matches_in_text ft)"
  by (auto simp: all_spans_def list_all_iff dest!: map_of_SomeD)

lemma add_definition_spans:
  assumes "all_spans P found"
    and "P \<lparr>alias_found = slice text a b, location_start = a, location_end = b\<rparr>"
  shows "all_spans P (add_definition text a b d found)"
proof -
  have "list_all P (matches_in_text ft)" if "map_of found (main_term d) = Some ft" for ft
    using assms(1) that by (rule all_spans_map_of)
  with assms show ?thesis
    unfolding add_definition_def Let_def
    by (intro all_spans_update) (auto split: option.splits)
qed

lemma fold_add_definition_spans:
  "all_spans P found \<Longrightarrow> P \<lparr>alias_found = slice text a b, location_start = a, location_end = b\<rparr>
     \<Longrightarrow> all_spans P (fold (add_definition text a b) ds found)"
  by (induction ds arbitrary: found) (simp_all add: add_definition_spans)

lemma process_match_spans:
  assumes "all_spans P (fst st)"
    and "P \<lparr>alias_found = slice text (fst m) (snd m), location_start = fst m, location_end = snd m\<rparr>"
  shows "all_spans P (fst (process_match idx text p m st))"
  using assms by (simp add: process_match_def fold_add_definition_spans)

lemma fold_process_match_spans:
  assumes "all_spans P (fst st)"
    and "\<And>m. m \<in> set ms \<Longrightarrow>
           P \<lparr>alias_found = slice text (fst m) (snd m), location_start = fst m, location_end = snd m\<rparr>"
  shows "all_spans P (fst (fold (process_match idx text p) ms st))"
  using assms by (induction ms arbitrary: st) (simp_all add: process_match_spans)

lemma process_phrase_spans:
  assumes "all_spans (span_ok text phrases) (fst st)" and "p \<in> set phrases"
  shows "all_spans (span_ok text phrases) (fst (process_phrase idx text (lower text) p st))"
  unfolding process_phrase_def
proof (rule fold_process_match_spans [OF assms(1)])
  fix m
  assume "m \<in> set (finditer p (lower text))"
  then have "match_at p (lower text) (fst m) \<and> snd m = fst m + length p"
    using finditer_sound [of "fst m" "snd m"] by simp
  with assms(2) show "span_ok text phrases
      \<lparr>alias_found = slice text (fst m) (snd m), location_start = fst m, location_end = snd m\<rparr>"
    by (auto simp: span_ok_def list_ex_iff)
qed

lemma fold_process_phrase_spans:
  "all_spans (span_ok text phrases) (fst st) \<Longrightarrow> set ps \<subseteq> set phrases
     \<Longrightarrow> all_spans (span_ok text phrases) (fst (fold (process_phrase idx text (lower text)) ps st))"
  by (induction ps arbitrary: st) (simp_all add: process_phrase_spans)

lemma enhanced_spans:
  assumes "ft \<in> set (found_terms (find_and_define_phrases_in_text_enhanced svc phrases text))"
    and "m \<in> set (matches_in_text ft)"
  shows "span_ok text phrases m"
proof -
  have "set (sorted_phrases phrases) \<subseteq> set phrases"
    by (simp add: sorted_phrases_def)
  then have "all_spans (span_ok text phrases)
      (fst (fold (process_phrase (phrase_index svc) text (lower text)) (sorted_phrases phrases) ([], [])))"
    by (intro fold_process_phrase_spans) (simp_all add: all_spans_def)
  with assms show ?thesis
    by (auto simp: find_and_define_phrases_in_text_enhanced_def Let_def all_spans_def list_all_iff)
qed

lemma lower_slice: "lower (slice s a b) = slice (lower s) a b"
  by (simp add: lower_def slice_def take_map drop_map)

text \<open>
  What holds of every span of the result, for every text, every index and every walk of
  its phrase set: \<open>alias_found\<close> is the slice of the text between the two offsets,
  and the span is as long as some known phrase. The start is below the end when that
  phrase is not empty; the matcher itself does not ask for that.
\<close>

lemma spans_are_slices:
  assumes "ft \<in> set (found_terms (find_and_define_phrases_in_text_enhanced svc phrases text))"
    and "m \<in> set (matches_in_text ft)"
    and "walks phrases svc"
  shows "lower (slice text (location_start m) (location_end m)) = lower (alias_found m)
         \<and> ([] \<notin> all_known_phrases svc \<longrightarrow> location_start m < location_end m)"
proof -
  from assms(1,2) have "span_ok text phrases m" by (rule enhanced_spans)
  then obtain p where p: "p \<in> set phrases" "location_end m = location_start m + length p"
      "alias_found m = slice text (location_start m) (location_end m)"
    by (auto simp: span_ok_def list_ex_iff)
  have "location_start m < location_end m" if "[] \<notin> all_known_phrases svc"
  proof -
    from p(1) assms(3) that have "p \<noteq> []"
      by (auto simp: walks_def)
    with p(2) show ?thesis by simp
  qed
  with p(3) show ?thesis by simp
qed

lemma is_word_disease: "list_all is_word ''disease''"
  by (simp add: is_word_def ord_def)

lemma lower_take_drop: "lower (take n (drop a s)) = take n (drop a (lower s))"
  by (simp add: lower_def take_map drop_map)

lemma match_at_length:
  assumes "match_at p s a" and "p \<noteq> []"
  shows "a + length p \<le> length s"
proof -
  from assms(1) have "length (take (length p) (drop a s)) = length p"
    by (simp add: match_at_def)
  then have "length p \<le> length s - a"
    by simp
  moreover from assms(2) have "0 < length p" by simp
  ultimately show ?thesis by linarith
qed

lemma match_at_nth:
  assumes "match_at p s a" and "i < length p"
  shows "s ! (a + i) = p ! i"
proof -
  from assms(2) have ne: "p \<noteq> []" by auto
  have len: "a + length p \<le> length s"
    using assms(1) ne by (rule match_at_length)
  from assms(1) have "take (length p) (drop a s) = p"
    by (simp add: match_at_def)
  then have "p ! i = take (length p) (drop a s) ! i" by simp
  also have "\<dots> = s ! (a + i)"
    using assms(2) len by simp
  finally show ?thesis by simp
qed

lemma match_at_not_embedded:
  assumes "match_at p s a" and "p \<noteq> []" and "list_all is_word p"
  shows "\<not> embedded s a (length p)"
proof -
  from assms(1) have b1: "is_boundary s a" and b2: "is_boundary s (a + length p)"
    by (simp_all add: match_at_def)
  have len: "a + length p \<le> length s"
    using assms(1,2) by (rule match_at_length)
  from assms(2) have pos: "0 < length p" by simp
  have w: "is_word (p ! i)" if "i < length p" for i
    using assms(3) that by (simp add: list_all_length)
  have last: "length p - 1 < length p"
    using pos by simp
  have "s ! (a + 0) = p ! 0"
    using assms(1) pos by (rule match_at_nth)
  with w [OF pos] have "is_word (s ! a)" by simp
  moreover have "s ! (a + (length p - 1)) = p ! (length p - 1)"
    using assms(1) last by (rule match_at_nth)
  with w [OF last] have "is_word (s ! (a + (length p - 1)))" by simp
  ultimately show ?thesis
    using b1 b2 len pos by (auto simp: is_boundary_def embedded_def)
qed

text \<open>
  Word boundaries on the texts of the embedding. When every occurrence of "disease" in
  the lower-cased text is a proper part of a longer word, no span of the result is a
  match for "disease": no \<open>alias_found\<close> lower-cases to it. This holds for every index
  and every walk of its phrase set, and rests on lower-casing keeping every position.
\<close>

lemma whole_words_below_256:
  assumes "only_embedded ''disease'' (lower text)"
  shows "list_all (\<lambda>ft. list_all (\<lambda>m. lower (alias_found m) \<noteq> ''disease'') (matches_in_text ft))
           (found_terms (find_and_define_phrases_in_text_enhanced svc phrases text))"
proof -
  have "lower (alias_found m) \<noteq> ''disease''"
    if ft: "ft \<in> set (found_terms (find_and_define_phrases_in_text_enhanced svc phrases text))"
      and m: "m \<in> set (matches_in_text ft)" for ft m
  proof
    assume eq: "lower (alias_found m) = ''disease''"
    from ft m have "span_ok text phrases m" by (rule enhanced_spans)
    then obtain p where p: "match_at p (lower text) (location_start m)"
        "location_end m = location_start m + length p"
        "alias_found m = slice text (location_start m) (location_end m)"
      by (auto simp: span_ok_def list_ex_iff)
    then have "lower (alias_found m) = take (length p) (drop (location_start m) (lower text))"
      by (simp add: slice_def lower_take_drop)
    with p(1) eq have pd: "p = ''disease''"
      by (simp add: match_at_def)
    with p(1) have ne: "\<not> embedded (lower text) (location_start m) (length ''disease'')"
      using match_at_not_embedded [of "''disease''"] is_word_disease by blast
    from p(1) pd have "location_start m + length ''disease'' \<le> length (lower text)"
      using match_at_length [of "''disease''"] by blast
    then have "location_start m \<in> set [0..<Suc (length (lower text))]" by simp
    with assms p(1) pd ne show False
      by (auto simp: only_embedded_def list_all_iff match_at_def)
  qed
  then show ?thesis by (simp add: list_all_iff)
qed

section \<open>Terms with parentheses\<close>

lemma is_space_blank: "is_space (CHR '' '')"
  by (simp add: is_space_def ord_def)
lemma newline_neq: "CHR '' '' \<noteq> newline" "CHR ''('' \<noteq> newline" "CHR '')'' \<noteq> newline"
  by (simp_all add: newline_def)

lemma find_rev_upt_Some:
  assumes "a \<le> k" and "k < b" and "P k" and "\<And>k'. k < k' \<Longrightarrow> k' < b \<Longrightarrow> \<not> P k'"
  shows "find P (rev [a..<b]) = Some k"
  using assms
proof (induction b)
  case 0
  then show ?case by simp
next
  case (Suc b)
  from Suc.prems have ab: "a \<le> b" by simp
  show ?case
  proof (cases "k = b")
    case True
    with Suc.prems ab show ?thesis by simp
  next
    case False
    with Suc.prems have kb: "k < b" by simp
    then have "\<not> P b" using Suc.prems(4) by simp
    moreover have "find P (rev [a..<b]) = Some k"
      using Suc.prems kb by (intro Suc.IH) simp_all
    ultimately show ?thesis using ab by simp
  qed
qed

lemma match_group2_closing:
  assumes "A \<noteq> []" and "newline \<notin> set A"
  shows "match_group2 (A @ '')'') = Some A"
proof -
  let ?r = "A @ '')''"
  have tw: "takeWhile (\<lambda>c. c \<noteq> newline) ?r = ?r"
    using assms(2) newline_neq by (auto simp: takeWhile_eq_all_conv)
  have "find (\<lambda>k. ?r ! k = CHR '')'') (rev [1..<length ?r]) = Some (length A)"
    using assms(1) by (intro find_rev_upt_Some) (simp_all add: Suc_leI)
  then show ?thesis
    by (simp add: match_group2_def tw)
qed

lemma match_here_shape:
  assumes "M \<noteq> []" and "A \<noteq> []" and "newline \<notin> set M" and "newline \<notin> set A"
    and "\<not> space_paren A"
  shows "match_here (M @ '' ('' @ A @ '')'') = Some (M, A)"
proof -
  define s where "s = M @ '' ('' @ A @ '')''"
  have tw: "takeWhile (\<lambda>c. c \<noteq> newline) s = s"
    using assms(3,4) newline_neq by (auto simp: s_def takeWhile_eq_all_conv)
  have dr: "drop (length M + 2) s = A @ '')''"
    by (simp add: s_def)
  have tk: "take (length M) s = M"
    by (simp add: s_def)
  have len: "length s = length M + length A + 3"
    by (simp add: s_def)
  have g2: "match_group2 (drop (length M + 2) s) = Some A"
    unfolding dr using assms(2,4) by (rule match_group2_closing)
  have c1: "Suc (length M) < length s"
    by (simp add: len)
  have c2: "s ! length M = CHR '' ''"
    by (simp add: s_def)
  have c3: "s ! Suc (length M) = CHR ''(''"
    by (simp add: s_def nth_append)
  have ok: "group1_ok s (length M)"
    unfolding group1_ok_def g2 using c1 c2 c3 is_space_blank by simp
  have later: "\<not> group1_ok s k'" if k': "length M < k'" for k'
  proof
    assume g: "group1_ok s k'"
    from k' obtain i where i: "k' = length M + Suc i"
      by (metis less_imp_Suc_add add_Suc_right)
    show False
    proof (cases i)
      case 0
      with g i not_space_lparen show False
        by (simp add: group1_ok_def s_def nth_append)
    next
      case (Suc i')
      from g i Suc have l: "i' < length A"
        by (simp add: group1_ok_def len)
      from g i Suc l have sp: "is_space (A ! i')"
        by (simp add: group1_ok_def s_def nth_append)
      from g i Suc have lp: "(A @ '')'') ! Suc i' = CHR ''(''"
        by (simp add: group1_ok_def s_def nth_append)
      show False
      proof (cases "Suc i' < length A")
        case True
        with lp have "A ! Suc i' = CHR ''(''" by (simp add: nth_append)
        moreover from True have "i' \<in> set [0..<length A - 1]" by simp
        ultimately show False
          using assms(5) sp by (auto simp: space_paren_def list_ex_iff)
      next
        case False
        with l have "Suc i' = length A" by simp
        with lp show False by (simp add: nth_append)
      qed
    qed
  qed
  have "find (group1_ok s) (rev [1..<Suc (length s)]) = Some (length M)"
  proof (rule find_rev_upt_Some)
    show "1 \<le> length M" using assms(1) by (simp add: Suc_leI)
    show "length M < Suc (length s)" by (simp add: len)
    show "group1_ok s (length M)" by (rule ok)
    show "\<not> group1_ok s k'" if "length M < k'" for k' using that by (rule later)
  qed
  then have "match_here s = Some (M, A)"
    unfolding match_here_def tw by (simp only: option.case g2 tk option.map)
  then show ?thesis by (simp only: s_def)
qed

lemma re_search_shape:
  assumes "M \<noteq> []" and "A \<noteq> []" and "newline \<notin> set M" and "newline \<notin> set A"
    and "\<not> space_paren A"
  shows "re_search (M @ '' ('' @ A @ '')'') = Some (M, A)"
proof -
  from assms(1) obtain c cs where M: "M = c # cs" by (cases M) auto
  have "match_here (M @ '' ('' @ A @ '')'') = Some (M, A)"
    using assms by (rule match_here_shape)
  then show ?thesis
    unfolding M by simp
qed

lemma lower_append: "lower (xs @ ys) = lower xs @ lower ys"
  by (simp add: lower_def)

lemma lower_paren_shape:
  "lower (main @ '' ('' @ alt @ '')'') = lower main @ '' ('' @ lower alt @ '')''"
  by (simp add: lower_def char_lower_def ord_def)

lemma newline_lower: "newline \<in> set (lower s) \<longleftrightarrow> newline \<in> set s"
proof (induction s)
  case Nil
  show ?case by (simp add: lower_def)
next
  case (Cons a s)
  have "(newline = char_lower a) = (newline = a)"
    using char_lower_newline [of a] by auto
  with Cons show ?case by (simp add: lower_def)
qed

lemma space_paren_lower: "space_paren (lower s) = space_paren s"
  by (auto simp: space_paren_def list_ex_iff lower_def is_space_char_lower char_lower_lparen)

text \<open>
  C6, as the code has it. \<open>_generate_aliases\<close> of "Pertussis (Whooping Cough)" is
  exactly the set of "pertussis (whooping cough)", "pertussis" and "whooping cough".
  For every term the result contains the lower-cased term. For a term
  \<open>main + " (" + alt + ")"\<close> where \<open>main\<close> and \<open>alt\<close> are not empty and hold no line
  feed, and \<open>alt\<close> holds no white space right before an opening parenthesis, the result
  is exactly the lower-cased term, the stripped lower-cased \<open>main\<close> and the stripped
  lower-cased \<open>alt\<close>.
\<close>

theorem generate_aliases_parentheses:
  assumes "main \<noteq> []" and "alt \<noteq> []" and "newline \<notin> set main" and "newline \<notin> set alt"
    and "\<not> space_paren alt"
  shows "generate_aliases ''Pertussis (Whooping Cough)''
           = {''pertussis (whooping cough)'', ''pertussis'', ''whooping cough''}
         \<and> lower t \<in> generate_aliases t
         \<and> generate_aliases (main @ '' ('' @ alt @ '')'')
             = {lower (main @ '' ('' @ alt @ '')''), strip (lower main), strip (lower alt)}"
proof -
  have a: "generate_aliases ''Pertussis (Whooping Cough)''
           = {''pertussis (whooping cough)'', ''pertussis'', ''whooping cough''}"
    by code_simp
  have b: "lower t \<in> generate_aliases t"
    by (simp add: generate_aliases_def Let_def split: option.splits prod.splits)
  have "re_search (lower main @ '' ('' @ lower alt @ '')'') = Some (lower main, lower alt)"
    using assms by (intro re_search_shape) (simp_all add: newline_lower space_paren_lower, simp_all add: lower_def)
  then have c: "generate_aliases (main @ '' ('' @ alt @ '')'')
             = {lower (main @ '' ('' @ alt @ '')''), strip (lower main), strip (lower alt)}"
    unfolding generate_aliases_def lower_paren_shape by auto
  from a b c show ?thesis by simp
qed

theorem generate_aliases_parentheses_witness:
  "''Pertussis'' \<noteq> [] \<and> ''Whooping Cough'' \<noteq> [] \<and> newline \<notin> set ''Pertussis''
   \<and> newline \<notin> set ''Whooping Cough'' \<and> \<not> space_paren ''Whooping Cough''
   \<and> generate_aliases (''Pertussis'' @ '' ('' @ ''Whooping Cough'' @ '')'')
       = {''pertussis (whooping cough)'', ''pertussis'', ''whooping cough''}"
proof -
  have h: "newline \<notin> set ''Pertussis''" "newline \<notin> set ''Whooping Cough''"
      "\<not> space_paren ''Whooping Cough''"
    by code_simp+
  have v: "lower (''Pertussis'' @ '' ('' @ ''Whooping Cough'' @ '')'') = ''pertussis (whooping cough)''"
      "strip (lower ''Pertussis'') = ''pertussis''"
      "strip (lower ''Whooping Cough'') = ''whooping cough''"
    by code_simp+
  show ?thesis
    using h generate_aliases_parentheses [where main = "''Pertussis''" and alt = "''Whooping Cough''", OF _ _ h]
    unfolding v by auto
qed

text \<open>
  C6, as the claim words it, fails on a term with nested parentheses: the greedy first
  group runs up to the last opening parenthesis, so for
  "Vaccine (Measles (MMR))", which is "Vaccine" + " (" + "Measles (MMR)" + ")", the
  result holds "vaccine (measles" and "mmr)" and neither "vaccine" nor "measles (mmr)".
\<close>

theorem generate_aliases_parentheses_counterexample:
  "''Vaccine (Measles (MMR))'' = ''Vaccine'' @ '' ('' @ ''Measles (MMR)'' @ '')''
   \<and> generate_aliases ''Vaccine (Measles (MMR))''
       = {''vaccine (measles (mmr))'', ''vaccine (measles'', ''mmr)''}
   \<and> strip (lower ''Vaccine'') \<notin> generate_aliases ''Vaccine (Measles (MMR))''
   \<and> strip (lower ''Measles (MMR)'') \<notin> generate_aliases ''Vaccine (Measles (MMR))''"
  by code_simp

section \<open>The properties on the example glossaries\<close>

lemma pertussis_service_built:
  "new_glossary_service (Some pertussis_glossary) = Inr pertussis_service"
proof -
  have "\<not> isl (new_glossary_service (Some pertussis_glossary))"
    unfolding pertussis_glossary_def by code_simp
  then show ?thesis
    by (cases "new_glossary_service (Some pertussis_glossary)") (simp_all add: pertussis_service_def)
qed

lemma pertussis_service_phrases:
  "all_known_phrases pertussis_service
     = {''disease'', ''pertussis (whooping cough)'', ''pertussis'', ''whooping cough''}"
  unfolding pertussis_service_def pertussis_glossary_def by code_simp

lemma pertussis_service_index:
  "phrase_index pertussis_service ''whooping cough''
     = Some [\<lparr>main_term = ''Pertussis (Whooping Cough)'',
               plain_alternative = ''a lung infection with coughing fits'', source = ''vaccines''\<rparr>]"
  unfolding pertussis_service_def pertussis_glossary_def by code_simp

text \<open>
  The invariant of C9 on the service built from the glossary with "Pertussis (Whooping
  Cough)": the key "whooping cough".
\<close>

theorem index_aliases_lowercase_known_witness:
  "new_glossary_service (Some pertussis_glossary) = Inr pertussis_service
   \<and> ''whooping cough'' \<in> dom (phrase_index pertussis_service)
   \<and> lower ''whooping cough'' = ''whooping cough''
   \<and> ''whooping cough'' \<in> all_known_phrases pertussis_service"
proof -
  have d: "''whooping cough'' \<in> dom (phrase_index pertussis_service)"
    using pertussis_service_index by (simp add: dom_def)
  show ?thesis
    using pertussis_service_built d
      index_aliases_lowercase_known [OF pertussis_service_built d]
    by simp
qed

lemma blank_alias_service_built:
  "new_glossary_service (Some blank_alias_glossary) = Inr blank_alias_service"
proof -
  have "\<not> isl (new_glossary_service (Some blank_alias_glossary))"
    unfolding blank_alias_glossary_def by code_simp
  then show ?thesis
    by (cases "new_glossary_service (Some blank_alias_glossary)")
      (simp_all add: blank_alias_service_def)
qed

lemma blank_alias_service_phrases:
  "all_known_phrases blank_alias_service = {''polio ( )'', ''polio'', []}"
  unfolding blank_alias_service_def blank_alias_glossary_def by code_simp

text \<open>
  C3, at an input where the code leaves it. The build skips an entry whose term is empty,
  but the term "Polio ( )" passes that guard and gets the empty string as an alias: the
  second group of the pattern is one blank, which \<open>strip\<close> empties. The pattern of the
  empty phrase matches at every word boundary, and on the text "Flu" the matcher reports
  the spans 0 to 0 and 3 to 3, with an empty \<open>alias_found\<close>: \<open>location_start\<close> is not
  below \<open>location_end\<close>, which the claim and the test of the endpoint require.
\<close>

theorem empty_alias_empty_spans:
  "new_glossary_service (Some blank_alias_glossary) = Inr blank_alias_service
   \<and> walks [''polio ( )'', ''polio'', []] blank_alias_service
   \<and> map matches_in_text
        (found_terms (find_and_define_phrases_in_text_enhanced blank_alias_service
           [''polio ( )'', ''polio'', []] ''Flu''))
       = [[\<lparr>alias_found = [], location_start = 0, location_end = 0\<rparr>,
           \<lparr>alias_found = [], location_start = 3, location_end = 3\<rparr>]]"
proof -
  have w: "walks [''polio ( )'', ''polio'', []] blank_alias_service"
    by (simp add: walks_def blank_alias_service_phrases)
  have r: "map matches_in_text
        (found_terms (find_and_define_phrases_in_text_enhanced blank_alias_service
           [''polio ( )'', ''polio'', []] ''Flu''))
       = [[\<lparr>alias_found = [], location_start = 0, location_end = 0\<rparr>,
           \<lparr>alias_found = [], location_start = 3, location_end = 3\<rparr>]]"
    unfolding blank_alias_service_def blank_alias_glossary_def by code_simp
  from blank_alias_service_built w r show ?thesis by simp
qed

end
